theory Spec2Isabelle
  imports Main "HOL-Library.Signed_Division" "HOL-Library.Word"
begin

section \<open>goharproxy: a HAR-recording proxy and its instance manager\<close>

text \<open>
  The development follows \<^verbatim>\<open>harproxy.go\<close>. Every definition names the
  function and the lines it embeds. Goroutines are interleaved by explicit event lists;
  calls into the Go standard library (\<^verbatim>\<open>net\<close>, \<^verbatim>\<open>net/http\<close>,
  \<^verbatim>\<open>time\<close>) and into the forwarding engine appear as parameters or as the
  values they return.
\<close>

subsection \<open>Go values: panics, slices, channels\<close>

datatype go_panic =
    NilPointerDereference
  | SliceBoundsOutOfRange
  | SendOnClosedChannel
  | CloseOfClosedChannel
  | MakeSliceOutOfRange

text \<open>
  A slice whose window starts at the beginning of its backing array: \<open>arr\<close> is the
  backing array (its length is the capacity) and \<open>slen\<close> the length of the window.
\<close>

record 'a slice =
  arr :: "'a list"
  slen :: nat

definition cap_slice :: "'a slice \<Rightarrow> nat" where
  "cap_slice s = length (arr s)"

definition elems :: "'a slice \<Rightarrow> 'a list" where
  "elems s = take (slen s) (arr s)"

definition wf_slice :: "'a slice \<Rightarrow> bool" where
  "wf_slice s = (slen s \<le> length (arr s))"

text \<open>\<^verbatim>\<open>make([]T, len, cap)\<close>: a zeroed backing array of \<open>cap\<close> cells.\<close>

definition make_slice :: "'a \<Rightarrow> nat \<Rightarrow> nat \<Rightarrow> 'a slice" where
  "make_slice zero n c = \<lparr>arr = replicate c zero, slen = n\<rparr>"

text \<open>\<^verbatim>\<open>s[0:n]\<close> panics when \<open>n\<close> exceeds the capacity.\<close>

definition reslice :: "'a slice \<Rightarrow> nat \<Rightarrow> go_panic + 'a slice" where
  "reslice s n = (if n \<le> cap_slice s then Inr (s\<lparr>slen := n\<rparr>) else Inl SliceBoundsOutOfRange)"

text \<open>
  \<^verbatim>\<open>copy(dst[off:off+w], src)\<close> writes \<open>min w (length src)\<close> elements into the
  backing array of \<open>dst\<close>, starting at cell \<open>off\<close>.
\<close>

definition copy_into :: "'a slice \<Rightarrow> nat \<Rightarrow> nat \<Rightarrow> 'a list \<Rightarrow> 'a slice" where
  "copy_into dst off w src =
     (let k = min w (length src)
      in dst\<lparr>arr := take off (arr dst) @ take k src @ drop (off + k) (arr dst)\<rparr>)"

text \<open>
  A channel: \<open>cap\<close> is fixed at creation, \<open>buf\<close> holds the buffered items in order,
  \<open>closed\<close> is set by \<^verbatim>\<open>close\<close>. \<^verbatim>\<open>len(ch)\<close> is the number of buffered items.
\<close>

record 'a chan =
  cap :: nat
  buf :: "'a list"
  closed :: bool

definition make_chan :: "nat \<Rightarrow> 'a chan" where
  "make_chan n = \<lparr>cap = n, buf = [], closed = False\<rparr>"

definition len_chan :: "'a chan \<Rightarrow> nat" where
  "len_chan c = length (buf c)"

subsection \<open>Requests, responses, transactions, host rules\<close>

record http_Request =
  Method :: string
  URL_Host :: string
  ContentLength :: int
  Body :: string

record http_Response =
  StatusCode :: int
  RespContentLength :: int
  RespBody :: string

text \<open>\<^verbatim>\<open>reqAndResp\<close> (lines 90-95). Times are clock readings in nanoseconds;
  \<^verbatim>\<open>resp\<close> is a pointer and may be nil.\<close>

record reqAndResp =
  rr_req :: http_Request
  rr_start :: int
  rr_resp :: "http_Response option"
  rr_end :: int

text \<open>\<^verbatim>\<open>ProxyHosts\<close> (lines 293-296).\<close>

record ProxyHosts =
  Host :: string
  NewHost :: string

definition zero_ProxyHosts :: ProxyHosts where
  "zero_ProxyHosts = \<lparr>Host = [], NewHost = []\<rparr>"

subsection \<open>Host rewriting\<close>

text \<open>
  \<^verbatim>\<open>replaceHost\<close> (lines 173-181): the \<^verbatim>\<open>range\<close> loop over the rule slice,
  leaving at the first rule whose \<^verbatim>\<open>Host\<close> equals the request's host.
\<close>

fun replaceHost_loop :: "ProxyHosts list \<Rightarrow> http_Request \<Rightarrow> http_Request" where
  "replaceHost_loop [] req = req"
| "replaceHost_loop (hostEntry # rest) req =
     (if URL_Host req = Host hostEntry
      then req\<lparr>URL_Host := NewHost hostEntry\<rparr>
      else replaceHost_loop rest req)"

definition replaceHost :: "http_Request \<Rightarrow> ProxyHosts slice \<Rightarrow> http_Request" where
  "replaceHost req hostEntries = replaceHost_loop (elems hostEntries) req"

text \<open>\<^verbatim>\<open>handleRequest\<close> (lines 168-171): rewrite the host, synthesise no response.\<close>

definition handleRequest ::
  "http_Request \<Rightarrow> ProxyHosts slice \<Rightarrow> http_Request \<times> http_Response option" where
  "handleRequest req hostEntries = (replaceHost req hostEntries, None)"

text \<open>
  \<^verbatim>\<open>AddHostEntries\<close> (lines 206-219) on the rule slice of the instance. The
  sizes are Go \<^verbatim>\<open>int\<close>s; they count cells held in memory and stay far below
  \<open>2^63\<close>, so they are natural numbers here.
\<close>

definition AddHostEntries :: "ProxyHosts list \<Rightarrow> ProxyHosts slice \<Rightarrow> go_panic + ProxyHosts slice" where
  "AddHostEntries hostEntries entries0 =
     (let m = slen entries0;
          n = m + length hostEntries;
          entries1 = (if n > cap_slice entries0
                      then copy_into (make_slice zero_ProxyHosts ((n + 1) * 2) ((n + 1) * 2))
                             0 ((n + 1) * 2) (elems entries0)
                      else entries0)
      in case reslice entries1 n of
           Inl p \<Rightarrow> Inl p
         | Inr entries2 \<Rightarrow> Inr (copy_into entries2 m (n - m) hostEntries))"

text \<open>The rule slice of a fresh instance (line 81): \<^verbatim>\<open>make([]ProxyHosts, 0, 100)\<close>.\<close>

definition new_hostEntries :: "ProxyHosts slice" where
  "new_hostEntries = make_slice zero_ProxyHosts 0 100"

subsection \<open>The capture interceptor\<close>

text \<open>
  \<^verbatim>\<open>copyReadCloser\<close> (lines 138-144). The two buffers are made with
  \<^verbatim>\<open>make([]byte, 0, len)\<close> (lines 139 and 141), which panics when \<open>len\<close> is
  negative or above the allocation limit of the runtime (\<open>2^48\<close> bytes on 64-bit
  Linux); an allocation within the limit is taken to succeed. The whole body is then
  read through a tee, so both returned readers hold the full content. A body is the
  string of bytes it yields.
\<close>

definition maxAlloc :: int where
  "maxAlloc = 2 ^ 48"

definition copyReadCloser :: "string \<Rightarrow> int \<Rightarrow> go_panic + string \<times> string" where
  "copyReadCloser readCloser len =
     (if len < 0 \<or> len > maxAlloc then Inl MakeSliceOutOfRange
      else Inr (readCloser, readCloser))"

definition copyReq :: "http_Request \<Rightarrow> go_panic + http_Request \<times> http_Request" where
  "copyReq req =
     (case copyReadCloser (Body req) (ContentLength req) of
        Inl p \<Rightarrow> Inl p
      | Inr (b1, b2) \<Rightarrow> Inr (req\<lparr>Body := b1\<rparr>, req\<lparr>Body := b2\<rparr>))"

definition copyResp :: "http_Response \<Rightarrow> go_panic + http_Response \<times> http_Response" where
  "copyResp resp =
     (case copyReadCloser (RespBody resp) (RespContentLength resp) of
        Inl p \<Rightarrow> Inl p
      | Inr (b1, b2) \<Rightarrow> Inr (resp\<lparr>RespBody := b1\<rparr>, resp\<lparr>RespBody := b2\<rparr>))"

text \<open>
  The request hook of \<^verbatim>\<open>createProxy\<close> (lines 101-108 and 120). \<open>now\<close> is what
  \<^verbatim>\<open>time.Now()\<close> reads at line 103; \<open>captureContent\<close> is a package variable
  declared outside this file. The captured request and the forwarded one share the
  \<^verbatim>\<open>URL\<close> pointer, so the host written by \<^verbatim>\<open>replaceHost\<close> shows in both.
  The result is a panic, or the transaction under construction and what the hook
  returns to the engine.
\<close>

definition onRequest ::
  "bool \<Rightarrow> int \<Rightarrow> http_Request \<Rightarrow> ProxyHosts slice
   \<Rightarrow> go_panic + (reqAndResp \<times> (http_Request \<times> http_Response option))" where
  "onRequest captureContent now req hostEntries =
     (case (if captureContent \<and> ContentLength req > 0 then copyReq req else Inr (req, req)) of
        Inl p \<Rightarrow> Inl p
      | Inr (req1, captured) \<Rightarrow>
          (let (req2, synth) = handleRequest req1 hostEntries
           in Inr (\<lparr>rr_req = captured\<lparr>URL_Host := URL_Host req2\<rparr>, rr_start = now,
                    rr_resp = None, rr_end = 0\<rparr>,
                   (req2, synth))))"

text \<open>
  What \<^verbatim>\<open>tr.DetailedRoundTrip(req)\<close> (line 111) does from the wrapper's point of
  view: it takes \<open>rt_duration\<close> nanoseconds on the wire and yields a response pointer
  (nil when the round trip failed) and an error.
\<close>

record round_trip =
  rt_duration :: int
  rt_resp :: "http_Response option"
  rt_err :: "string option"

text \<open>
  The round-trip wrapper of \<^verbatim>\<open>createProxy\<close> (lines 109-119). \<open>now\<close> is the
  clock when the engine calls the wrapper. Line 110 reads the clock, line 111 performs
  the round trip, line 112 tests \<^verbatim>\<open>captureContent && resp.ContentLength > 0\<close>
  (the right operand dereferences \<^verbatim>\<open>resp\<close>), line 113 copies the body, line
  117 publishes. The result
  is a panic, or the published transaction, the response and error handed back to the
  engine, and the clock when the wrapper is left.
\<close>

definition roundTripper ::
  "bool \<Rightarrow> int \<Rightarrow> round_trip \<Rightarrow> reqAndResp
   \<Rightarrow> go_panic + (reqAndResp \<times> http_Response option \<times> string option \<times> int)" where
  "roundTripper captureContent now rt rr =
     (let rr1 = rr\<lparr>rr_end := now\<rparr>;
          now' = now + rt_duration rt;
          resp = rt_resp rt;
          err = rt_err rt
      in if captureContent
         then (case resp of
                 None \<Rightarrow> Inl NilPointerDereference
               | Some r \<Rightarrow>
                   if RespContentLength r > 0
                   then (case copyResp r of
                           Inl p \<Rightarrow> Inl p
                         | Inr (r1, c) \<Rightarrow> Inr (rr1\<lparr>rr_resp := Some c\<rparr>, Some r1, err, now'))
                   else Inr (rr1\<lparr>rr_resp := resp\<rparr>, resp, err, now'))
         else Inr (rr1\<lparr>rr_resp := resp\<rparr>, resp, err, now'))"

subsection \<open>Building a log entry\<close>

text \<open>
  \<^verbatim>\<open>HarEntry\<close> with the fields this file writes. The parsed request and response
  come from \<^verbatim>\<open>parseRequest\<close> and \<^verbatim>\<open>parseResponse\<close>, declared outside this
  file: they are parameters, and so are their result types.
\<close>

record ('q, 'p) HarEntry =
  Request :: 'q
  StartedDateTime :: int
  Response :: 'p
  Time :: int
  ServerIpAddress :: string

text \<open>\<^verbatim>\<open>time.Time.Sub\<close>: the difference as an int64 duration, saturating.\<close>

definition maxDuration :: int where
  "maxDuration = 2 ^ 63 - 1"

definition minDuration :: int where
  "minDuration = - (2 ^ 63)"

definition Sub :: "int \<Rightarrow> int \<Rightarrow> int" where
  "Sub t u =
     (let d = t - u
      in if d > maxDuration then maxDuration else if d < minDuration then minDuration else d)"

text \<open>A \<^verbatim>\<open>net.IP\<close> is a byte slice; \<^verbatim>\<open>string(ip)\<close> is the string of those bytes.\<close>

type_synonym IP = "8 word list"

definition string_of_bytes :: "8 word list \<Rightarrow> string" where
  "string_of_bytes bs = map (\<lambda>b. char_of (unat b)) bs"

text \<open>\<^verbatim>\<open>IP.To4\<close>: the four-byte form of an IPv4 address, nil for anything else.\<close>

definition To4 :: "IP \<Rightarrow> IP option" where
  "To4 ip =
     (if length ip = 4 then Some ip
      else if length ip = 16 \<and> take 10 ip = replicate 10 0 \<and> ip ! 10 = 255 \<and> ip ! 11 = 255
      then Some (drop 12 ip)
      else None)"

function decimal :: "nat \<Rightarrow> string" where
  "decimal n = (if n < 10 then [char_of (48 + n)] else decimal (n div 10) @ [char_of (48 + n mod 10)])"
  by pat_completeness auto
termination
  by (relation "measure id") auto

text \<open>\<^verbatim>\<open>IP.String\<close> on an address whose \<^verbatim>\<open>To4\<close> is not nil: dotted decimal.\<close>

definition ipv4_String :: "IP \<Rightarrow> string" where
  "ipv4_String p4 =
     decimal (unat (p4 ! 0)) @ ''.'' @ decimal (unat (p4 ! 1)) @ ''.'' @
     decimal (unat (p4 ! 2)) @ ''.'' @ decimal (unat (p4 ! 3))"

text \<open>
  \<^verbatim>\<open>fillIpAddress\<close> (lines 187-204). The loop of lines 197-202 returns at the first
  address whose \<^verbatim>\<open>To4\<close> is not nil. \<^verbatim>\<open>net.SplitHostPort\<close>,
  \<^verbatim>\<open>net.ParseIP\<close> and \<^verbatim>\<open>net.LookupIP\<close> are parameters.
\<close>

fun fillIp_loop :: "IP list \<Rightarrow> ('q, 'p) HarEntry \<Rightarrow> ('q, 'p) HarEntry" where
  "fillIp_loop [] harEntry = harEntry"
| "fillIp_loop (ip # rest) harEntry =
     (case To4 ip of
        Some p4 \<Rightarrow> harEntry\<lparr>ServerIpAddress := ipv4_String p4\<rparr>
      | None \<Rightarrow> fillIp_loop rest harEntry)"

definition fillIpAddress ::
  "(string \<Rightarrow> string + string \<times> string) \<Rightarrow> (string \<Rightarrow> IP option) \<Rightarrow> (string \<Rightarrow> string + IP list)
   \<Rightarrow> http_Request \<Rightarrow> ('q, 'p) HarEntry \<Rightarrow> ('q, 'p) HarEntry" where
  "fillIpAddress SplitHostPort ParseIP LookupIP req harEntry =
     (let host = (case SplitHostPort (URL_Host req) of
                    Inl err \<Rightarrow> URL_Host req
                  | Inr (h, port) \<Rightarrow> h);
          harEntry1 = (case ParseIP host of
                         Some ip \<Rightarrow> harEntry\<lparr>ServerIpAddress := string_of_bytes ip\<rparr>
                       | None \<Rightarrow> harEntry)
      in case LookupIP host of
           Inl err \<Rightarrow> harEntry1
         | Inr ipaddr \<Rightarrow> fillIp_loop ipaddr harEntry1)"

text \<open>
  The body of the transform goroutine up to the append (lines 155-160):
  \<^verbatim>\<open>new(HarEntry)\<close>, then the fields in the order the code assigns them.
  The division by \<^verbatim>\<open>1e6\<close> is Go's, truncating towards zero.
\<close>

definition buildEntry ::
  "(http_Request \<Rightarrow> 'q) \<Rightarrow> (http_Response option \<Rightarrow> 'p)
   \<Rightarrow> (string \<Rightarrow> string + string \<times> string) \<Rightarrow> (string \<Rightarrow> IP option) \<Rightarrow> (string \<Rightarrow> string + IP list)
   \<Rightarrow> reqAndResp \<Rightarrow> ('q, 'p) HarEntry" where
  "buildEntry parseRequest parseResponse SplitHostPort ParseIP LookupIP rr =
     fillIpAddress SplitHostPort ParseIP LookupIP (rr_req rr)
       \<lparr>Request = parseRequest (rr_req rr),
        StartedDateTime = rr_start rr,
        Response = parseResponse (rr_resp rr),
        Time = Sub (rr_end rr) (rr_start rr) sdiv 1000000,
        ServerIpAddress = []\<rparr>"

subsection \<open>The proxy instance\<close>

text \<open>A bound \<^verbatim>\<open>net.Listener\<close>: the port it listens on and whether it still accepts.\<close>

record listener =
  bound_port :: int
  accepting :: bool

record 'e HarLog =
  Entries :: "'e list"

text \<open>
  \<^verbatim>\<open>HarProxy\<close> (lines 25-54) without the engine handle. \<open>'e\<close> is the type of
  log entries.
\<close>

record 'e HarProxy =
  Port :: int
  HarLog :: "'e HarLog"
  StoppableListener :: "listener option"
  isDone :: "bool chan"
  hostEntries :: "ProxyHosts slice"
  entryChannel :: "reqAndResp chan"
  entriesInProcess :: int

text \<open>
  Modelled from the spec: \<^verbatim>\<open>makeNewEntries\<close>, \<^verbatim>\<open>newHarLog\<close> and
  \<^verbatim>\<open>addEntry\<close> are called here and declared outside this file. The spec has a
  reset that "swaps the sequence for a new empty one", a log that starts empty, and an
  append that adds the entry at the end of the sequence as one indivisible operation.
\<close>

definition makeNewEntries :: "'e list" where
  "makeNewEntries = []"

definition newHarLog :: "'e HarLog" where
  "newHarLog = \<lparr>Entries = makeNewEntries\<rparr>"

definition addEntry :: "'e \<Rightarrow> 'e HarLog \<Rightarrow> 'e HarLog" where
  "addEntry entry harLog = harLog\<lparr>Entries := Entries harLog @ [entry]\<rparr>"

text \<open>
  Modelled from the spec: \<^verbatim>\<open>GetPort\<close> is declared outside this file; the spec
  registers an instance "under the actually bound port" of its listener.
\<close>

definition GetPort :: "listener \<Rightarrow> int" where
  "GetPort l = bound_port l"

text \<open>
  \<^verbatim>\<open>NewHarProxyWithPort\<close> (lines 76-88): both channels are made without a
  capacity argument. \<^verbatim>\<open>createProxy\<close> starts the consumer goroutine and installs
  the hooks; the goroutines are part of the pipeline state below.
\<close>

definition NewHarProxyWithPort :: "int \<Rightarrow> 'e HarProxy" where
  "NewHarProxyWithPort port =
     \<lparr>Port = port,
      HarLog = newHarLog,
      StoppableListener = None,
      isDone = make_chan 0,
      hostEntries = make_slice zero_ProxyHosts 0 100,
      entryChannel = make_chan 0,
      entriesInProcess = 0\<rparr>"

definition NewHarProxy :: "'e HarProxy" where
  "NewHarProxy = NewHarProxyWithPort 0"

text \<open>\<^verbatim>\<open>ClearEntries\<close> (lines 250-254).\<close>

definition ClearEntries :: "'e HarProxy \<Rightarrow> 'e HarProxy" where
  "ClearEntries proxy = proxy\<lparr>HarLog := (HarLog proxy)\<lparr>Entries := makeNewEntries\<rparr>\<rparr>"

subsection \<open>Draining\<close>




definition busy :: "nat \<times> int \<Rightarrow> bool" where
  "busy ob = (fst ob > 0 \<or> snd ob > 0)"



text \<open>What the loop condition reads from an instance.\<close>

definition observe :: "'e HarProxy \<Rightarrow> nat \<times> int" where
  "observe proxy = (len_chan (entryChannel proxy), entriesInProcess proxy)"

subsection \<open>The control plane\<close>

text \<open>
  How a call ends for the hosting process: \<^verbatim>\<open>log.Fatal\<close> logs and calls
  \<^verbatim>\<open>os.Exit(1)\<close>; a panic unwinds the calling goroutine; otherwise the call
  returns.
\<close>

datatype 'a process = Exit int | Panicked go_panic | Returned 'a

text \<open>
  \<^verbatim>\<open>Start\<close> (lines 221-239). \<open>Listen\<close> stands for
  \<^verbatim>\<open>net.Listen("tcp", ":" + port)\<close>: an error, or the bound listener. The
  goroutine started at line 229 is the serving task of the shutdown protocol below.
\<close>

definition Start :: "(int \<Rightarrow> string + listener) \<Rightarrow> 'e HarProxy \<Rightarrow> 'e HarProxy process" where
  "Start Listen proxy =
     (case Listen (Port proxy) of
        Inl err \<Rightarrow> Exit 1
      | Inr l \<Rightarrow> Returned (proxy\<lparr>StoppableListener := Some l, Port := GetPort l\<rparr>))"

datatype reply = PortReply int | MessageReply string | ErrorReply int string

text \<open>
  \<^verbatim>\<open>createNewHarProxy\<close> (lines 329-343) on the registry \<^verbatim>\<open>portAndProxy\<close>
  (line 277): the new registry and the JSON reply.
\<close>

definition createNewHarProxy ::
  "(int \<Rightarrow> string + listener) \<Rightarrow> (int \<rightharpoonup> 'e HarProxy)
   \<Rightarrow> ((int \<rightharpoonup> 'e HarProxy) \<times> reply) process" where
  "createNewHarProxy Listen portAndProxy =
     (case Start Listen NewHarProxy of
        Exit code \<Rightarrow> Exit code
      | Panicked p \<Rightarrow> Panicked p
      | Returned harProxy \<Rightarrow>
          (case StoppableListener harProxy of
             None \<Rightarrow> Panicked NilPointerDereference
           | Some l \<Rightarrow>
               (let port = GetPort l
                in Returned (portAndProxy(port \<mapsto> harProxy\<lparr>Port := port\<rparr>), PortReply port))))"

subsection \<open>The recording pipeline as interleaved goroutines\<close>

text \<open>
  The goroutines of one instance, each at a point of its code. The consumer
  (\<^verbatim>\<open>processEntriesFunc\<close>, lines 146-166) is blocked in the receive of line 148,
  or holds the received transaction before line 153, or has read the counter for line
  153 and not yet written it, or is before the \<^verbatim>\<open>go\<close> statement of line 154, or
  has left the loop. A transform goroutine (lines 154-163) is before its append (lines
  155-161), or before line 162, or has read the counter for line 162 and not yet written
  it. Lines 153 and 162 are plain \<^verbatim>\<open>+=\<close> and \<^verbatim>\<open>-=\<close> on a shared variable,
  with no lock and no atomic operation: each is a read followed by a write, and other
  goroutines run in between.
\<close>

datatype consumer_pc =
    AtReceive
  | AtIncrement reqAndResp
  | AtIncrementStore reqAndResp int
  | AtDispatch reqAndResp
  | Finished

datatype transform_pc = AtBuild reqAndResp | AtDecrement | AtDecrementStore int

text \<open>
  \<open>senders\<close> are the interceptors blocked in the send of line 117, oldest first;
  \<open>published\<close> counts the sends that have completed; \<open>drained\<close> says that a call of
  \<^verbatim>\<open>WaitForEntries\<close> has returned.
\<close>

record 'e pipeline =
  inst :: "'e HarProxy"
  senders :: "reqAndResp list"
  consumer :: consumer_pc
  transforms :: "transform_pc list"
  published :: nat
  drained :: bool

text \<open>
  One event is one step of one goroutine: an interceptor reaches the send of line 117;
  the consumer's receive completes; the read and the write of line 153; line 154;
  transform \<open>i\<close> runs lines 155-161, or the read or the write of line 162;
  \<^verbatim>\<open>WaitForEntries\<close> evaluates the condition of line 264; the channel is closed
  (line 234).
\<close>

datatype event =
    Publish reqAndResp
  | Receive
  | IncrementLoad
  | IncrementStore
  | Dispatch
  | AddEntry nat
  | DecrementLoad nat
  | DecrementStore nat
  | Poll
  | Close

text \<open>The state \<^verbatim>\<open>NewHarProxyWithPort\<close> leaves: line 100 has started the consumer.\<close>

definition new_pipeline :: "int \<Rightarrow> 'e pipeline" where
  "new_pipeline port =
     \<lparr>inst = NewHarProxyWithPort port, senders = [], consumer = AtReceive,
      transforms = [], published = 0, drained = False\<rparr>"

text \<open>
  One step. \<open>None\<close>: the event cannot happen in this state (the goroutine is
  elsewhere or stays blocked). Channel operations follow Go: a send on a closed
  channel panics, as does a sender that is blocked when the channel is closed; a send
  completes into a free buffer cell, otherwise the sender blocks until a receive takes
  its value or makes room; a receive takes the oldest buffered value, or the value of
  the oldest blocked sender, or sees the closed channel; otherwise it blocks.
  \<open>mk\<close> is the entry a transform builds from its transaction (lines 155-160).
\<close>

fun step :: "(reqAndResp \<Rightarrow> 'e) \<Rightarrow> event \<Rightarrow> 'e pipeline \<Rightarrow> (go_panic + 'e pipeline) option" where
  "step mk (Publish rr) s =
     (let ch = entryChannel (inst s)
      in if closed ch then Some (Inl SendOnClosedChannel)
         else if length (buf ch) < cap ch
         then Some (Inr (s\<lparr>inst := (inst s)\<lparr>entryChannel := ch\<lparr>buf := buf ch @ [rr]\<rparr>\<rparr>,
                           published := Suc (published s)\<rparr>))
         else Some (Inr (s\<lparr>senders := senders s @ [rr]\<rparr>)))"
| "step mk Receive s =
     (let ch = entryChannel (inst s)
      in if consumer s \<noteq> AtReceive then None
         else (case buf ch of
                 x # rest \<Rightarrow>
                   (case senders s of
                      [] \<Rightarrow> Some (Inr (s\<lparr>inst := (inst s)\<lparr>entryChannel := ch\<lparr>buf := rest\<rparr>\<rparr>,
                                        consumer := AtIncrement x\<rparr>))
                    | y # ys \<Rightarrow>
                        Some (Inr (s\<lparr>inst := (inst s)\<lparr>entryChannel := ch\<lparr>buf := rest @ [y]\<rparr>\<rparr>,
                                     senders := ys, published := Suc (published s),
                                     consumer := AtIncrement x\<rparr>)))
               | [] \<Rightarrow>
                   (case senders s of
                      y # ys \<Rightarrow>
                        Some (Inr (s\<lparr>senders := ys, published := Suc (published s),
                                     consumer := AtIncrement y\<rparr>))
                    | [] \<Rightarrow>
                        if closed ch then Some (Inr (s\<lparr>consumer := Finished\<rparr>)) else None)))"
| "step mk IncrementLoad s =
     (case consumer s of
        AtIncrement rr \<Rightarrow>
          Some (Inr (s\<lparr>consumer := AtIncrementStore rr (entriesInProcess (inst s))\<rparr>))
      | _ \<Rightarrow> None)"
| "step mk IncrementStore s =
     (case consumer s of
        AtIncrementStore rr v \<Rightarrow>
          Some (Inr (s\<lparr>inst := (inst s)\<lparr>entriesInProcess := v + 1\<rparr>,
                       consumer := AtDispatch rr\<rparr>))
      | _ \<Rightarrow> None)"
| "step mk Dispatch s =
     (case consumer s of
        AtDispatch rr \<Rightarrow>
          Some (Inr (s\<lparr>transforms := transforms s @ [AtBuild rr], consumer := AtReceive\<rparr>))
      | _ \<Rightarrow> None)"
| "step mk (AddEntry i) s =
     (if i < length (transforms s)
      then (case transforms s ! i of
              AtBuild rr \<Rightarrow>
                Some (Inr (s\<lparr>inst := (inst s)\<lparr>HarLog := addEntry (mk rr) (HarLog (inst s))\<rparr>,
                             transforms := (transforms s)[i := AtDecrement]\<rparr>))
            | _ \<Rightarrow> None)
      else None)"
| "step mk (DecrementLoad i) s =
     (if i < length (transforms s)
      then (case transforms s ! i of
              AtDecrement \<Rightarrow>
                Some (Inr (s\<lparr>transforms :=
                               (transforms s)[i := AtDecrementStore (entriesInProcess (inst s))]\<rparr>))
            | _ \<Rightarrow> None)
      else None)"
| "step mk (DecrementStore i) s =
     (if i < length (transforms s)
      then (case transforms s ! i of
              AtDecrementStore v \<Rightarrow>
                Some (Inr (s\<lparr>inst := (inst s)\<lparr>entriesInProcess := v - 1\<rparr>,
                             transforms := take i (transforms s) @ drop (Suc i) (transforms s)\<rparr>))
            | _ \<Rightarrow> None)
      else None)"
| "step mk Poll s =
     (if drained s then None
      else if busy (observe (inst s)) then Some (Inr s)
      else Some (Inr (s\<lparr>drained := True\<rparr>)))"
| "step mk Close s =
     (let ch = entryChannel (inst s)
      in if closed ch then Some (Inl CloseOfClosedChannel)
         else if senders s \<noteq> [] then Some (Inl SendOnClosedChannel)
         else Some (Inr (s\<lparr>inst := (inst s)\<lparr>entryChannel := ch\<lparr>closed := True\<rparr>\<rparr>\<rparr>)))"

fun run :: "(reqAndResp \<Rightarrow> 'e) \<Rightarrow> event list \<Rightarrow> 'e pipeline \<Rightarrow> (go_panic + 'e pipeline) option" where
  "run mk [] s = Some (Inr s)"
| "run mk (e # es) s =
     (case step mk e s of
        None \<Rightarrow> None
      | Some (Inl p) \<Rightarrow> Some (Inl p)
      | Some (Inr s') \<Rightarrow> run mk es s')"

text \<open>
  What the invariant below counts: the transaction the consumer holds between its
  receive and its \<^verbatim>\<open>go\<close> statement, and the transforms that have not appended yet.
\<close>

definition holding :: "consumer_pc \<Rightarrow> nat" where
  "holding c = (case c of AtReceive \<Rightarrow> 0 | Finished \<Rightarrow> 0 | _ \<Rightarrow> 1)"

definition is_build :: "transform_pc \<Rightarrow> bool" where
  "is_build t = (case t of AtBuild rr \<Rightarrow> True | _ \<Rightarrow> False)"

text \<open>
  The invariant of the pipeline: the channel has no buffer and holds nothing; every
  completed send is in the log, or with a transform that has not appended yet, or in
  the consumer's hands. The counter has no place in it: a write of line 153 or 162
  can undo a write another goroutine made since the matching read.
\<close>

definition pipeline_inv :: "'e pipeline \<Rightarrow> bool" where
  "pipeline_inv s =
     (cap (entryChannel (inst s)) = 0 \<and> buf (entryChannel (inst s)) = []
      \<and> published s = length (Entries (HarLog (inst s))) + length (filter is_build (transforms s))
                        + holding (consumer s))"

subsection \<open>One instance under its control plane\<close>

text \<open>
  The goroutine started by \<^verbatim>\<open>Start\<close> (lines 229-237) is inside
  \<^verbatim>\<open>http.Serve\<close> (line 230), or has come back from it (lines 231-233), or has
  closed the capture channel (line 234) and is blocked in the send on \<^verbatim>\<open>isDone\<close>
  (line 235), or has ended. \<^verbatim>\<open>Stop\<close> (lines 241-248) has not been called, or has
  closed the listener (lines 242-244) and is blocked in the receive of line 245, or is
  past that receive, or has returned. A call of \<^verbatim>\<open>getHarLog\<close> (lines 319-327) is
  in the loop of \<^verbatim>\<open>WaitForEntries\<close> (line 321), or before the encoding of the log
  (lines 322-324), or before \<^verbatim>\<open>ClearEntries\<close> (line 325).
\<close>

datatype server_pc = Serving | ServeReturned | AtDoneSend | ServerExited

datatype stop_pc = StopNotCalled | StopWaiting | StopReleased | StopReturned

datatype reader_pc = NotReading | InWaitForEntries | AtEncode | AtClearEntries

text \<open>\<open>replies\<close> are the logs \<^verbatim>\<open>getHarLog\<close> has written to its callers, oldest first.\<close>

record 'e system =
  pipe :: "'e pipeline"
  server :: server_pc
  stopper :: stop_pc
  reader :: reader_pc
  replies :: "'e HarLog list"

text \<open>
  The events. A step of the pipeline: \<^verbatim>\<open>http.Serve\<close> serves every accepted
  connection in a goroutine of its own, which it does not wait for when it returns,
  and \<^verbatim>\<open>stoppableListener\<close> (lines 62-70) adds nothing to \<^verbatim>\<open>Accept\<close>, so the
  interceptors, the consumer and the transforms step whatever the serving task and
  \<^verbatim>\<open>Stop\<close> are doing. \<^verbatim>\<open>Stop\<close> is called and runs up to its receive.
  \<^verbatim>\<open>http.Serve\<close> returns, once \<^verbatim>\<open>Accept\<close> fails on the closed listener. Line
  234. The send of line 235 and the receive of line 245 complete together,
  \<^verbatim>\<open>isDone\<close> having no buffer (line 82). \<^verbatim>\<open>Stop\<close> returns. \<^verbatim>\<open>getHarLog\<close>
  is called; \<^verbatim>\<open>WaitForEntries\<close> evaluates its condition; the log is encoded into
  the reply; the log is cleared.
\<close>

datatype sys_event =
    Pipeline event
  | CallStop
  | ServeReturns
  | CloseEntryChannel
  | Handshake
  | StopReturns
  | CallGetHarLog
  | EvalCondition
  | Encode
  | Clear

definition close_listener :: "listener option \<Rightarrow> listener option" where
  "close_listener l = map_option (\<lambda>x. x\<lparr>accepting := False\<rparr>) l"

definition listener_closed :: "listener option \<Rightarrow> bool" where
  "listener_closed l = (case l of None \<Rightarrow> False | Some x \<Rightarrow> \<not> accepting x)"

text \<open>
  The state \<^verbatim>\<open>createNewHarProxy\<close> leaves for an instance bound to listener
  \<open>l\<close>: \<^verbatim>\<open>NewHarProxy\<close> has started the consumer, \<^verbatim>\<open>Start\<close> the serving task.
\<close>

definition started :: "listener \<Rightarrow> 'e system" where
  "started l =
     \<lparr>pipe = (new_pipeline 0)\<lparr>inst := NewHarProxy\<lparr>StoppableListener := Some l, Port := GetPort l\<rparr>\<rparr>,
      server = Serving, stopper = StopNotCalled, reader = NotReading, replies = []\<rparr>"

text \<open>
  One step of the system. The closing of the channel and the evaluation of the drain
  condition are the pipeline's own \<open>Close\<close> and \<open>Poll\<close>, taken by the serving task
  and by \<^verbatim>\<open>getHarLog\<close>; every other pipeline event is free.
\<close>

fun sys_step :: "(reqAndResp \<Rightarrow> 'e) \<Rightarrow> sys_event \<Rightarrow> 'e system \<Rightarrow> (go_panic + 'e system) option" where
  "sys_step mk (Pipeline e) s =
     (if e = Close \<or> e = Poll then None
      else (case step mk e (pipe s) of
              None \<Rightarrow> None
            | Some (Inl p) \<Rightarrow> Some (Inl p)
            | Some (Inr q) \<Rightarrow> Some (Inr (s\<lparr>pipe := q\<rparr>))))"
| "sys_step mk CallStop s =
     (if stopper s = StopNotCalled
      then Some (Inr (s\<lparr>pipe := (pipe s)\<lparr>inst := (inst (pipe s))\<lparr>StoppableListener :=
                                 close_listener (StoppableListener (inst (pipe s)))\<rparr>\<rparr>,
                       stopper := StopWaiting\<rparr>))
      else None)"
| "sys_step mk ServeReturns s =
     (if server s = Serving \<and> listener_closed (StoppableListener (inst (pipe s)))
      then Some (Inr (s\<lparr>server := ServeReturned\<rparr>))
      else None)"
| "sys_step mk CloseEntryChannel s =
     (if server s = ServeReturned
      then (case step mk Close (pipe s) of
              None \<Rightarrow> None
            | Some (Inl p) \<Rightarrow> Some (Inl p)
            | Some (Inr q) \<Rightarrow> Some (Inr (s\<lparr>pipe := q, server := AtDoneSend\<rparr>)))
      else None)"
| "sys_step mk Handshake s =
     (if server s = AtDoneSend \<and> stopper s = StopWaiting
      then Some (Inr (s\<lparr>server := ServerExited, stopper := StopReleased\<rparr>))
      else None)"
| "sys_step mk StopReturns s =
     (if stopper s = StopReleased then Some (Inr (s\<lparr>stopper := StopReturned\<rparr>)) else None)"
| "sys_step mk CallGetHarLog s =
     (if reader s = NotReading
      then Some (Inr (s\<lparr>pipe := (pipe s)\<lparr>drained := False\<rparr>, reader := InWaitForEntries\<rparr>))
      else None)"
| "sys_step mk EvalCondition s =
     (if reader s = InWaitForEntries
      then (case step mk Poll (pipe s) of
              None \<Rightarrow> None
            | Some (Inl p) \<Rightarrow> Some (Inl p)
            | Some (Inr q) \<Rightarrow>
                Some (Inr (s\<lparr>pipe := q,
                             reader := (if drained q then AtEncode else InWaitForEntries)\<rparr>)))
      else None)"
| "sys_step mk Encode s =
     (if reader s = AtEncode
      then Some (Inr (s\<lparr>reader := AtClearEntries,
                       replies := replies s @ [HarLog (inst (pipe s))]\<rparr>))
      else None)"
| "sys_step mk Clear s =
     (if reader s = AtClearEntries
      then Some (Inr (s\<lparr>pipe := (pipe s)\<lparr>inst := ClearEntries (inst (pipe s))\<rparr>,
                       reader := NotReading\<rparr>))
      else None)"

fun sys_run ::
  "(reqAndResp \<Rightarrow> 'e) \<Rightarrow> sys_event list \<Rightarrow> 'e system \<Rightarrow> (go_panic + 'e system) option" where
  "sys_run mk [] s = Some (Inr s)"
| "sys_run mk (e # es) s =
     (case sys_step mk e s of
        None \<Rightarrow> None
      | Some (Inl p) \<Rightarrow> Some (Inl p)
      | Some (Inr s') \<Rightarrow> sys_run mk es s')"

text \<open>
  The order the handshake keeps: the capture channel is closed exactly when the
  serving task is past line 234, and \<^verbatim>\<open>Stop\<close> is past its receive exactly when the
  serving task has ended.
\<close>

definition shutdown_inv :: "'e system \<Rightarrow> bool" where
  "shutdown_inv s =
     ((closed (entryChannel (inst (pipe s))) \<longleftrightarrow> server s = AtDoneSend \<or> server s = ServerExited)
      \<and> (stopper s = StopReleased \<or> stopper s = StopReturned \<longleftrightarrow> server s = ServerExited))"

subsection \<open>One forwarded transaction\<close>

text \<open>
  The engine calls the request hook, and later, once per forwarded request, the
  round-trip wrapper the hook installed (line 109). \<open>t_hook\<close> is the clock at the
  request hook and \<open>engine_delay\<close> the time the engine spends before it calls the
  wrapper. The result is the published transaction and the clock when the response
  is back.
\<close>

definition forward ::
  "bool \<Rightarrow> int \<Rightarrow> int \<Rightarrow> round_trip \<Rightarrow> http_Request \<Rightarrow> ProxyHosts slice
   \<Rightarrow> go_panic + (reqAndResp \<times> int)" where
  "forward captureContent t_hook engine_delay rt req rules =
     (case onRequest captureContent t_hook req rules of
        Inl p \<Rightarrow> Inl p
      | Inr (rr0, fwd) \<Rightarrow>
          (case roundTripper captureContent (t_hook + engine_delay) rt rr0 of
             Inl p \<Rightarrow> Inl p
           | Inr (rr, resp, err, t_back) \<Rightarrow> Inr (rr, t_back)))"

subsection \<open>Concrete inputs\<close>

definition sample_request :: http_Request where
  "sample_request = \<lparr>Method = ''GET'', URL_Host = ''example.com'', ContentLength = 0, Body = []\<rparr>"

definition sample_request_v6 :: http_Request where
  "sample_request_v6 = \<lparr>Method = ''GET'', URL_Host = ''[::1]:80'', ContentLength = 0, Body = []\<rparr>"

definition sample_response :: http_Response where
  "sample_response = \<lparr>StatusCode = 200, RespContentLength = 0, RespBody = []\<rparr>"

definition sample_transaction :: reqAndResp where
  "sample_transaction = \<lparr>rr_req = sample_request, rr_start = 0, rr_resp = None, rr_end = 0\<rparr>"

text \<open>A round trip of five seconds that succeeds, and one that fails after a millisecond.\<close>

definition slow_round_trip :: round_trip where
  "slow_round_trip = \<lparr>rt_duration = 5000000000, rt_resp = Some sample_response, rt_err = None\<rparr>"

definition failed_round_trip :: round_trip where
  "failed_round_trip =
     \<lparr>rt_duration = 1000000, rt_resp = None, rt_err = Some ''dial tcp: connection refused''\<rparr>"

text \<open>
  What the \<^verbatim>\<open>net\<close> functions return on the hosts used below:
  \<^verbatim>\<open>SplitHostPort("[::1]:80")\<close> is \<^verbatim>\<open>("::1", "80")\<close>, a host without a port
  is an error; \<^verbatim>\<open>ParseIP("::1")\<close> is the 16-byte address; the resolver returns a
  literal address as it is and knows no other name.
\<close>

definition loopback_v6 :: IP where
  "loopback_v6 = [0, 0, 0, 0, 0, 0, 0, 0, 0, 0, 0, 0, 0, 0, 0, 1]"

definition sample_SplitHostPort :: "string \<Rightarrow> string + string \<times> string" where
  "sample_SplitHostPort s =
     (if s = ''[::1]:80'' then Inr (''::1'', ''80'') else Inl ''missing port in address'')"

definition sample_ParseIP :: "string \<Rightarrow> IP option" where
  "sample_ParseIP s = (if s = ''::1'' then Some loopback_v6 else None)"

definition sample_LookupIP :: "string \<Rightarrow> string + IP list" where
  "sample_LookupIP s = (if s = ''::1'' then Inr [loopback_v6] else Inl ''no such host'')"

definition empty_entry :: "(string, int option) HarEntry" where
  "empty_entry =
     \<lparr>Request = [], StartedDateTime = 0, Response = None, Time = 0, ServerIpAddress = []\<rparr>"

text \<open>A bind that fails, and one that gives port 49152 when asked for any port.\<close>

definition Listen_fails :: "int \<Rightarrow> string + listener" where
  "Listen_fails port = Inl ''listen tcp: bind: address already in use''"

definition Listen_binds :: "int \<Rightarrow> string + listener" where
  "Listen_binds port = Inr \<lparr>bound_port = (if port = 0 then 49152 else port), accepting = True\<rparr>"

definition one_instance :: "int \<rightharpoonup> nat HarProxy" where
  "one_instance = [8081 \<mapsto> NewHarProxyWithPort 8081]"

text \<open>The transform of lines 155-160 with the sample resolver, and a published transaction.\<close>

definition sample_mk :: "reqAndResp \<Rightarrow> (string, int option) HarEntry" where
  "sample_mk = buildEntry Method (map_option StatusCode) sample_SplitHostPort sample_ParseIP sample_LookupIP"

definition published_tx :: reqAndResp where
  "published_tx = sample_transaction\<lparr>rr_resp := Some sample_response\<rparr>"

text \<open>The listener of a bind to port 49152.\<close>

definition sample_listener :: listener where
  "sample_listener = \<lparr>bound_port = 49152, accepting = True\<rparr>"

text \<open>Every evaluation of the drain condition reads an empty channel and a counter of -1.\<close>

definition negative_counter_polls :: "nat \<Rightarrow> nat \<times> int" where
  "negative_counter_polls k = (0, - 1)"


section \<open>Properties\<close>

subsection \<open>Host rewriting\<close>

lemma AddHostEntries_appends:
  assumes "wf_slice es"
  shows "\<exists>es'. AddHostEntries added es = Inr es' \<and> wf_slice es' \<and> elems es' = elems es @ added"
proof (cases "slen es + length added > cap_slice es")
  case True
  then show ?thesis
    using assms
    by (simp add: AddHostEntries_def Let_def reslice_def copy_into_def make_slice_def
        cap_slice_def elems_def wf_slice_def min_def)
next
  case False
  then show ?thesis
    using assms
    by (cases added)
      (auto simp: AddHostEntries_def Let_def reslice_def copy_into_def
        cap_slice_def elems_def wf_slice_def min_def)
qed

lemma replaceHost_loop_no_match:
  "\<forall>e \<in> set rules. Host e \<noteq> URL_Host req \<Longrightarrow> replaceHost_loop rules req = req"
  by (induction rules) auto

lemma replaceHost_loop_first_match:
  "\<forall>e \<in> set pre. Host e \<noteq> URL_Host req \<Longrightarrow> Host r = URL_Host req \<Longrightarrow>
   replaceHost_loop (pre @ r # post) req = req\<lparr>URL_Host := NewHost r\<rparr>"
  by (induction pre) auto

lemma replaceHost_loop_append:
  "\<exists>e \<in> set rules. Host e = URL_Host req \<Longrightarrow>
   replaceHost_loop (rules @ added) req = replaceHost_loop rules req"
  by (induction rules) auto

text \<open>
  C9. \<^verbatim>\<open>replaceHost\<close> scans the rules in insertion order and compares hosts by
  exact equality: a request whose host matches no rule is returned unchanged; a request
  whose host first matches rule \<open>r\<close> (no earlier rule matches) gets the host
  \<open>NewHost r\<close>; \<^verbatim>\<open>AddHostEntries\<close> never panics, appends the new rules after the
  existing ones, and leaves the rewriting of every request already matched by an
  existing rule as it was.
\<close>

theorem replaceHost_first_match_wins:
  assumes "wf_slice es"
  shows "((\<forall>e \<in> set (elems es). Host e \<noteq> URL_Host req) \<longrightarrow> replaceHost req es = req)
       \<and> (\<forall>pre r post.
            elems es = pre @ r # post \<and> (\<forall>e \<in> set pre. Host e \<noteq> URL_Host req)
              \<and> Host r = URL_Host req
            \<longrightarrow> replaceHost req es = req\<lparr>URL_Host := NewHost r\<rparr>)
       \<and> (\<exists>es'. AddHostEntries added es = Inr es' \<and> elems es' = elems es @ added
            \<and> ((\<exists>e \<in> set (elems es). Host e = URL_Host req)
                 \<longrightarrow> replaceHost req es' = replaceHost req es))"
proof (intro conjI allI impI)
  assume "\<forall>e \<in> set (elems es). Host e \<noteq> URL_Host req"
  then show "replaceHost req es = req"
    by (simp add: replaceHost_def replaceHost_loop_no_match)
next
  fix pre r post
  assume "elems es = pre @ r # post \<and> (\<forall>e \<in> set pre. Host e \<noteq> URL_Host req)
            \<and> Host r = URL_Host req"
  then show "replaceHost req es = req\<lparr>URL_Host := NewHost r\<rparr>"
    by (simp add: replaceHost_def replaceHost_loop_first_match)
next
  from AddHostEntries_appends [OF assms, of added]
  obtain es' where es': "AddHostEntries added es = Inr es'" "elems es' = elems es @ added"
    by blast
  have "(\<exists>e \<in> set (elems es). Host e = URL_Host req)
          \<longrightarrow> replaceHost req es' = replaceHost req es"
    by (simp add: replaceHost_def es'(2) replaceHost_loop_append)
  with es' show "\<exists>es'. AddHostEntries added es = Inr es' \<and> elems es' = elems es @ added
            \<and> ((\<exists>e \<in> set (elems es). Host e = URL_Host req)
                 \<longrightarrow> replaceHost req es' = replaceHost req es)"
    by blast
qed

theorem replaceHost_first_match_wins_witness:
  "wf_slice \<lparr>arr = [\<lparr>Host = ''a.test'', NewHost = ''b.test''\<rparr>], slen = Suc 0\<rparr>
   \<and> replaceHost \<lparr>Method = ''GET'', URL_Host = ''z.test'', ContentLength = 0, Body = []\<rparr>
         \<lparr>arr = [\<lparr>Host = ''a.test'', NewHost = ''b.test''\<rparr>], slen = Suc 0\<rparr>
       = \<lparr>Method = ''GET'', URL_Host = ''z.test'', ContentLength = 0, Body = []\<rparr>
   \<and> replaceHost \<lparr>Method = ''GET'', URL_Host = ''a.test'', ContentLength = 0, Body = []\<rparr>
         \<lparr>arr = [\<lparr>Host = ''a.test'', NewHost = ''b.test''\<rparr>], slen = Suc 0\<rparr>
       = \<lparr>Method = ''GET'', URL_Host = ''b.test'', ContentLength = 0, Body = []\<rparr>
   \<and> (\<exists>es'. AddHostEntries [\<lparr>Host = ''a.test'', NewHost = ''c.test''\<rparr>]
               \<lparr>arr = [\<lparr>Host = ''a.test'', NewHost = ''b.test''\<rparr>], slen = Suc 0\<rparr> = Inr es'
          \<and> elems es' = [\<lparr>Host = ''a.test'', NewHost = ''b.test''\<rparr>,
                           \<lparr>Host = ''a.test'', NewHost = ''c.test''\<rparr>]
          \<and> replaceHost \<lparr>Method = ''GET'', URL_Host = ''a.test'', ContentLength = 0, Body = []\<rparr> es'
              = \<lparr>Method = ''GET'', URL_Host = ''b.test'', ContentLength = 0, Body = []\<rparr>)"
proof -
  let ?r = "\<lparr>Host = ''a.test'', NewHost = ''b.test''\<rparr>"
  let ?es = "\<lparr>arr = [?r], slen = Suc 0\<rparr>"
  let ?ad = "[\<lparr>Host = ''a.test'', NewHost = ''c.test''\<rparr>]"
  let ?rz = "\<lparr>Method = ''GET'', URL_Host = ''z.test'', ContentLength = 0, Body = []\<rparr>"
  let ?ra = "\<lparr>Method = ''GET'', URL_Host = ''a.test'', ContentLength = 0, Body = []\<rparr>"
  have wf: "wf_slice ?es"
    by (simp add: wf_slice_def)
  have el: "elems ?es = [?r]"
    by (simp add: elems_def)
  note Tz = replaceHost_first_match_wins [OF wf, of ?rz ?ad]
  note Ta = replaceHost_first_match_wins [OF wf, of ?ra ?ad]
  from Tz have "(\<forall>e \<in> set (elems ?es). Host e \<noteq> URL_Host ?rz) \<longrightarrow> replaceHost ?rz ?es = ?rz"
    by (rule conjunct1)
  then have z: "replaceHost ?rz ?es = ?rz"
    by (simp add: el)
  from conjunct1 [OF conjunct2 [OF Ta], rule_format, of "[]" ?r "[]"]
  have a: "replaceHost ?ra ?es = ?ra\<lparr>URL_Host := ''b.test''\<rparr>"
    by (simp add: el)
  from conjunct2 [OF conjunct2 [OF Ta]]
  obtain es' where e1: "AddHostEntries ?ad ?es = Inr es'"
    and e2: "elems es' = elems ?es @ ?ad"
    and e3: "(\<exists>e \<in> set (elems ?es). Host e = URL_Host ?ra)
               \<longrightarrow> replaceHost ?ra es' = replaceHost ?ra ?es"
    by (elim exE conjE)
  from e3 have "replaceHost ?ra es' = replaceHost ?ra ?es"
    by (simp add: el)
  with a have e4: "replaceHost ?ra es' = ?ra\<lparr>URL_Host := ''b.test''\<rparr>"
    by simp
  from e2 have e5: "elems es' = [?r, \<lparr>Host = ''a.test'', NewHost = ''c.test''\<rparr>]"
    by (simp add: el)
  from e1 e5 e4 have "\<exists>es'. AddHostEntries ?ad ?es = Inr es'
      \<and> elems es' = [?r, \<lparr>Host = ''a.test'', NewHost = ''c.test''\<rparr>]
      \<and> replaceHost ?ra es' = ?ra\<lparr>URL_Host := ''b.test''\<rparr>"
    by blast
  with wf z a show ?thesis
    by simp
qed

subsection \<open>Draining\<close>











subsection \<open>Timing of a transaction\<close>

lemma fillIp_loop_Time: "Time (fillIp_loop ips e) = Time e"
  by (induction ips) (auto split: option.splits)

lemma fillIpAddress_Time:
  "Time (fillIpAddress shp pip lip req e) = Time e"
  by (auto simp: fillIpAddress_def Let_def fillIp_loop_Time split: sum.splits option.splits prod.splits)

lemma buildEntry_Time:
  "Time (buildEntry pq pp shp pip lip rr) = Sub (rr_end rr) (rr_start rr) sdiv 1000000"
  by (simp add: buildEntry_def fillIpAddress_Time)

lemma forward_times:
  "forward cc t d rt req hs = Inr (rr, t_back) \<Longrightarrow>
   rr_start rr = t \<and> rr_end rr = t + d \<and> t_back = t + d + rt_duration rt"
  by (auto simp: forward_def onRequest_def roundTripper_def Let_def copyReq_def copyResp_def
      split: prod.splits if_splits option.splits sum.splits)

text \<open>
  C3, at a concrete input. The request hook runs at clock 0, the engine calls the
  wrapper at once, the round trip takes five seconds and succeeds. The response is
  back at clock 5000000000, that is 5000 ms after the start, and the entry built from
  the published transaction has \<open>Time = 0\<close>: the end timestamp is read at line 110,
  before the round trip of line 111.
\<close>

theorem Time_excludes_round_trip:
  "forward False 0 0 slow_round_trip sample_request new_hostEntries
     = Inr (sample_transaction\<lparr>rr_resp := Some sample_response\<rparr>, 5000000000)
   \<and> Time (buildEntry Method (map_option StatusCode)
             sample_SplitHostPort sample_ParseIP sample_LookupIP
             (sample_transaction\<lparr>rr_resp := Some sample_response\<rparr>)) = 0"
  by (simp add: forward_def onRequest_def roundTripper_def Let_def slow_round_trip_def
      sample_request_def sample_transaction_def handleRequest_def replaceHost_def
      new_hostEntries_def make_slice_def elems_def
      buildEntry_Time Sub_def maxDuration_def minDuration_def signed_divide_int_def)

subsection \<open>A failed round trip\<close>

text \<open>
  C4, at a concrete input. With content capture enabled and a round trip that returns
  a nil response and an error, the wrapper panics at line 112 on
  \<^verbatim>\<open>resp.ContentLength\<close>: nothing is published.
\<close>

theorem roundTripper_panics_on_error:
  "roundTripper True 1000000 failed_round_trip sample_transaction = Inl NilPointerDereference"
  by (simp add: roundTripper_def failed_round_trip_def Let_def)

subsection \<open>The server address of an entry\<close>

text \<open>
  C8, at a concrete input. For the host \<^verbatim>\<open>[::1]:80\<close> the field is set at line 193
  to \<^verbatim>\<open>string(ip)\<close>, the sixteen raw bytes of the parsed address, and the lookup of
  lines 196-203 finds no IPv4 address to replace it: the field is not the address
  \<^verbatim>\<open>::1\<close>.
\<close>

theorem fillIpAddress_literal_v6:
  "ServerIpAddress (fillIpAddress sample_SplitHostPort sample_ParseIP sample_LookupIP
      sample_request_v6 empty_entry) = string_of_bytes loopback_v6
   \<and> string_of_bytes loopback_v6 \<noteq> ''::1''"
  by (simp add: fillIpAddress_def sample_SplitHostPort_def sample_ParseIP_def sample_LookupIP_def
      sample_request_v6_def Let_def To4_def loopback_v6_def string_of_bytes_def)

subsection \<open>Creating an instance\<close>

text \<open>
  C5 as stated fails: when the bind fails, \<^verbatim>\<open>createNewHarProxy\<close> does not return
  to its caller; the process exits with status 1, with an instance running on port 8081.
\<close>

theorem createNewHarProxy_bind_failure_exits:
  "createNewHarProxy Listen_fails one_instance = Exit 1"
  by (simp add: createNewHarProxy_def Start_def Listen_fails_def)

text \<open>
  C5, amended. When \<^verbatim>\<open>net.Listen\<close> fails, \<^verbatim>\<open>Start\<close> ends the hosting process
  with exit status 1 and \<^verbatim>\<open>createNewHarProxy\<close> returns nothing to its caller. When
  it succeeds, the reply carries the bound port, the new instance is registered under
  that port with its listener, and every other registry entry is unchanged.
\<close>

theorem createNewHarProxy_outcomes:
  "(\<forall>err. Listen 0 = Inl err \<longrightarrow> createNewHarProxy Listen portAndProxy = Exit 1)
   \<and> (\<forall>l. Listen 0 = Inr l \<longrightarrow>
         (\<exists>registry harProxy.
             createNewHarProxy Listen portAndProxy = Returned (registry, PortReply (bound_port l))
             \<and> registry (bound_port l) = Some harProxy
             \<and> Port harProxy = bound_port l \<and> StoppableListener harProxy = Some l
             \<and> (\<forall>port. port \<noteq> bound_port l \<longrightarrow> registry port = portAndProxy port)))"
  by (auto simp: createNewHarProxy_def Start_def NewHarProxy_def NewHarProxyWithPort_def GetPort_def Let_def)

theorem createNewHarProxy_outcomes_witness:
  "Listen_fails 0 = Inl ''listen tcp: bind: address already in use''
   \<and> createNewHarProxy Listen_fails one_instance = Exit 1
   \<and> Listen_binds 0 = Inr \<lparr>bound_port = 49152, accepting = True\<rparr>
   \<and> (\<exists>registry harProxy.
         createNewHarProxy Listen_binds one_instance = Returned (registry, PortReply 49152)
         \<and> registry 49152 = Some harProxy \<and> Port harProxy = 49152
         \<and> registry 8081 = one_instance 8081)"
proof -
  have f: "Listen_fails 0 = Inl ''listen tcp: bind: address already in use''"
    by (simp add: Listen_fails_def)
  have b: "Listen_binds 0 = Inr \<lparr>bound_port = 49152, accepting = True\<rparr>"
    by (simp add: Listen_binds_def)
  from conjunct1 [OF createNewHarProxy_outcomes [of Listen_fails one_instance]] f
  have 1: "createNewHarProxy Listen_fails one_instance = Exit 1"
    by blast
  from conjunct2 [OF createNewHarProxy_outcomes [of Listen_binds one_instance], rule_format, OF b]
  have 2: "\<exists>registry harProxy.
         createNewHarProxy Listen_binds one_instance = Returned (registry, PortReply 49152)
         \<and> registry 49152 = Some harProxy \<and> Port harProxy = 49152
         \<and> registry 8081 = one_instance 8081"
    by auto
  from f b 1 2 show ?thesis
    by blast
qed

subsection \<open>The recording pipeline\<close>

lemma new_pipeline_inv: "pipeline_inv (new_pipeline port)"
  by (simp add: pipeline_inv_def new_pipeline_def NewHarProxyWithPort_def make_chan_def
      holding_def newHarLog_def makeNewEntries_def)

lemma filter_update_build:
  "i < length ts \<Longrightarrow> ts ! i = AtBuild rr \<Longrightarrow>
   length (filter is_build ts) = Suc (length (filter is_build (ts[i := AtDecrement])))"
proof (induction ts arbitrary: i)
  case Nil
  then show ?case by simp
next
  case (Cons t ts)
  then show ?case
    by (cases i) (auto simp: is_build_def)
qed

lemma filter_update_other:
  "i < length ts \<Longrightarrow> \<not> is_build (ts ! i) \<Longrightarrow> \<not> is_build x \<Longrightarrow>
   length (filter is_build (ts[i := x])) = length (filter is_build ts)"
proof (induction ts arbitrary: i)
  case Nil
  then show ?case by simp
next
  case (Cons t ts)
  then show ?case
    by (cases i) auto
qed

lemma filter_remove_other:
  "i < length ts \<Longrightarrow> \<not> is_build (ts ! i) \<Longrightarrow>
   length (filter is_build (take i ts @ drop (Suc i) ts)) = length (filter is_build ts)"
proof (induction ts arbitrary: i)
  case Nil
  then show ?case by simp
next
  case (Cons t ts)
  then show ?case
    by (cases i) auto
qed

lemma step_inv:
  assumes "pipeline_inv s" and "step mk e s = Some (Inr s')"
  shows "pipeline_inv s'"
proof (cases e)
  case (Publish rr)
  with assms show ?thesis
    by (auto simp: pipeline_inv_def Let_def split: if_splits)
next
  case Receive
  with assms show ?thesis
    by (auto simp: pipeline_inv_def Let_def holding_def split: if_splits list.splits)
next
  case IncrementLoad
  with assms show ?thesis
    by (auto simp: pipeline_inv_def holding_def split: consumer_pc.splits)
next
  case IncrementStore
  with assms show ?thesis
    by (auto simp: pipeline_inv_def holding_def split: consumer_pc.splits)
next
  case Dispatch
  with assms show ?thesis
    by (auto simp: pipeline_inv_def holding_def is_build_def split: consumer_pc.splits)
next
  case (AddEntry i)
  with assms filter_update_build [of i "transforms s"] show ?thesis
    by (auto simp: pipeline_inv_def addEntry_def split: if_splits transform_pc.splits)
next
  case (DecrementLoad i)
  with assms filter_update_other [of i "transforms s"] show ?thesis
    by (auto simp: pipeline_inv_def is_build_def split: if_splits transform_pc.splits)
next
  case (DecrementStore i)
  with assms filter_remove_other [of i "transforms s"] show ?thesis
    by (auto simp: pipeline_inv_def is_build_def min_def split: if_splits transform_pc.splits)
next
  case Poll
  with assms show ?thesis
    by (auto simp: pipeline_inv_def split: if_splits)
next
  case Close
  with assms show ?thesis
    by (auto simp: pipeline_inv_def Let_def split: if_splits)
qed

lemma run_inv:
  "pipeline_inv s \<Longrightarrow> run mk evs s = Some (Inr s') \<Longrightarrow> pipeline_inv s'"
proof (induction evs arbitrary: s)
  case Nil
  then show ?case by simp
next
  case (Cons e evs)
  from Cons.prems(2) obtain s1 where s1: "step mk e s = Some (Inr s1)" and r: "run mk evs s1 = Some (Inr s')"
    by (auto split: option.splits sum.splits)
  from step_inv [OF Cons.prems(1) s1] have "pipeline_inv s1" .
  from Cons.IH [OF this r] show ?case .
qed

lemma step_published:
  assumes "pipeline_inv s" and "step mk e s = Some (Inr s')" and "published s' \<noteq> published s"
  shows "e = Receive \<and> consumer s = AtReceive
       \<and> (\<exists>rr. senders s = rr # senders s' \<and> consumer s' = AtIncrement rr)
       \<and> published s' = Suc (published s)"
proof (cases e)
  case (Publish rr)
  with assms show ?thesis
    by (auto simp: pipeline_inv_def Let_def split: if_splits)
next
  case Receive
  with assms show ?thesis
    by (auto simp: pipeline_inv_def Let_def split: if_splits list.splits)
next
  case IncrementLoad
  with assms show ?thesis
    by (auto split: consumer_pc.splits)
next
  case IncrementStore
  with assms show ?thesis
    by (auto split: consumer_pc.splits)
next
  case Dispatch
  with assms show ?thesis
    by (auto split: consumer_pc.splits)
next
  case (AddEntry i)
  with assms show ?thesis
    by (auto split: if_splits transform_pc.splits)
next
  case (DecrementLoad i)
  with assms show ?thesis
    by (auto split: if_splits transform_pc.splits)
next
  case (DecrementStore i)
  with assms show ?thesis
    by (auto split: if_splits transform_pc.splits)
next
  case Poll
  with assms show ?thesis
    by (auto split: if_splits)
next
  case Close
  with assms show ?thesis
    by (auto simp: Let_def split: if_splits)
qed

lemma step_Publish_blocks:
  assumes "pipeline_inv s" and "step mk (Publish rr) s = Some (Inr s')"
  shows "published s' = published s \<and> senders s' = senders s @ [rr]"
  using assms by (auto simp: pipeline_inv_def Let_def split: if_splits)

text \<open>
  The counter can fall below zero. Two transactions: the consumer reads the counter
  for the second one (1), the first transform reads it (1), the consumer writes 2, the
  transform writes 0, and the second transform then takes it to -1, with every
  goroutine finished and both entries in the log.
\<close>

lemma counter_can_go_negative:
  "\<exists>s. run sample_mk
          [Publish published_tx, Receive, IncrementLoad, IncrementStore, Dispatch,
           Publish published_tx, Receive, IncrementLoad,
           AddEntry 0, DecrementLoad 0, IncrementStore, DecrementStore 0,
           Dispatch, AddEntry 0, DecrementLoad 0, DecrementStore 0]
          (new_pipeline 8081) = Some (Inr s)
       \<and> observe (inst s) = negative_counter_polls 0 \<and> transforms s = []
       \<and> consumer s = AtReceive \<and> length (Entries (HarLog (inst s))) = 2"
  by (simp add: new_pipeline_def NewHarProxyWithPort_def make_chan_def Let_def
      observe_def len_chan_def newHarLog_def makeNewEntries_def addEntry_def
      negative_counter_polls_def)

text \<open>
  C10. The capture channel of every instance is made with capacity zero and never
  holds an item, whatever the goroutines have done: \<^verbatim>\<open>len(proxy.entryChannel)\<close>
  is always zero, so the condition of \<^verbatim>\<open>WaitForEntries\<close> holds exactly when the
  counter is positive. An interceptor that reaches the send of line 117 blocks, and the
  count of completed sends changes only in a step in which the consumer's receive takes
  the transaction of the oldest blocked sender.
\<close>

theorem entryChannel_unbuffered:
  assumes "run mk evs (new_pipeline port) = Some (Inr s)"
  shows "cap (entryChannel (inst s)) = 0
       \<and> len_chan (entryChannel (inst s)) = 0
       \<and> (busy (observe (inst s)) \<longleftrightarrow> entriesInProcess (inst s) > 0)
       \<and> (\<forall>rr s'. step mk (Publish rr) s = Some (Inr s')
             \<longrightarrow> published s' = published s \<and> senders s' = senders s @ [rr])
       \<and> (\<forall>e s'. step mk e s = Some (Inr s') \<and> published s' \<noteq> published s
             \<longrightarrow> e = Receive \<and> consumer s = AtReceive
                 \<and> (\<exists>rr. senders s = rr # senders s' \<and> consumer s' = AtIncrement rr)
                 \<and> published s' = Suc (published s))"
proof -
  from run_inv [OF new_pipeline_inv assms] have inv: "pipeline_inv s" .
  then have c: "cap (entryChannel (inst s)) = 0" and l: "len_chan (entryChannel (inst s)) = 0"
    by (simp_all add: pipeline_inv_def len_chan_def)
  from l have b: "busy (observe (inst s)) \<longleftrightarrow> entriesInProcess (inst s) > 0"
    by (simp add: busy_def observe_def)
  from c l b step_Publish_blocks [OF inv] step_published [OF inv] show ?thesis
    by blast
qed

theorem entryChannel_unbuffered_witness:
  "\<exists>s. run sample_mk [Publish published_tx, Receive, IncrementLoad, IncrementStore]
          (new_pipeline 8081) = Some (Inr s)
       \<and> cap (entryChannel (inst s)) = 0 \<and> len_chan (entryChannel (inst s)) = 0
       \<and> entriesInProcess (inst s) = 1 \<and> busy (observe (inst s)) \<and> published s = 1
       \<and> (\<exists>s'. step sample_mk (Publish published_tx) s = Some (Inr s')
                 \<and> published s' = 1 \<and> senders s' = [published_tx])"
proof -
  obtain s where r: "run sample_mk [Publish published_tx, Receive, IncrementLoad, IncrementStore]
          (new_pipeline 8081) = Some (Inr s)"
    and e: "entriesInProcess (inst s) = 1" and p: "published s = 1" and n: "senders s = []"
    and o: "\<not> closed (entryChannel (inst s))"
    by (simp add: new_pipeline_def NewHarProxyWithPort_def make_chan_def Let_def)
  note T = entryChannel_unbuffered [OF r]
  from T have c: "cap (entryChannel (inst s)) = 0" and l: "len_chan (entryChannel (inst s)) = 0"
    by simp_all
  from T e have b: "busy (observe (inst s))"
    by simp
  from c o obtain s' where s': "step sample_mk (Publish published_tx) s = Some (Inr s')"
    by (simp add: Let_def)
  from T s' have "published s' = published s \<and> senders s' = senders s @ [published_tx]"
    by blast
  with p n s' have "\<exists>s'. step sample_mk (Publish published_tx) s = Some (Inr s')
                 \<and> published s' = 1 \<and> senders s' = [published_tx]"
    by simp
  with r c l e b p show ?thesis
    by blast
qed

text \<open>
  C2, at a concrete schedule. One transaction is forwarded: its interceptor reaches
  the send, the consumer's receive of line 148 takes it and the send completes. Before
  the consumer runs line 153, \<^verbatim>\<open>WaitForEntries\<close> evaluates its condition: the
  channel is empty and the counter is still zero, so it returns, and the log has no
  entry for the one transaction forwarded.
\<close>

theorem WaitForEntries_returns_early:
  "\<exists>s. run sample_mk [Publish published_tx, Receive, Poll] (new_pipeline 8081) = Some (Inr s)
       \<and> published s = 1 \<and> drained s \<and> Entries (HarLog (inst s)) = []"
  by (simp add: new_pipeline_def NewHarProxyWithPort_def make_chan_def Let_def busy_def
      observe_def len_chan_def newHarLog_def makeNewEntries_def)

subsection \<open>Shutdown and reading under interleaving\<close>

lemma step_keeps_closed:
  assumes "step mk e s = Some (Inr s')" and "e \<noteq> Close"
  shows "closed (entryChannel (inst s')) = closed (entryChannel (inst s))"
  using assms
  by (cases e)
    (auto simp: Let_def split: if_splits list.splits consumer_pc.splits transform_pc.splits)

lemma step_Close_closes:
  assumes "step mk Close s = Some (Inr s')"
  shows "closed (entryChannel (inst s')) \<and> \<not> closed (entryChannel (inst s))"
  using assms by (auto simp: Let_def split: if_splits)

lemma started_inv: "shutdown_inv (started l)"
  by (simp add: shutdown_inv_def started_def new_pipeline_def NewHarProxy_def
      NewHarProxyWithPort_def make_chan_def)

lemma sys_step_inv:
  assumes "shutdown_inv s" and "sys_step mk ev s = Some (Inr s')"
  shows "shutdown_inv s'"
proof (cases ev)
  case (Pipeline e)
  with assms obtain q where q: "step mk e (pipe s) = Some (Inr q)" and ne: "e \<noteq> Close"
    and s': "s' = s\<lparr>pipe := q\<rparr>"
    by (auto split: if_splits option.splits sum.splits)
  from step_keeps_closed [OF q ne] assms(1) s' show ?thesis
    by (simp add: shutdown_inv_def)
next
  case CallStop
  with assms show ?thesis
    by (auto simp: shutdown_inv_def split: if_splits)
next
  case ServeReturns
  with assms show ?thesis
    by (auto simp: shutdown_inv_def split: if_splits)
next
  case CloseEntryChannel
  with assms obtain q where q: "step mk Close (pipe s) = Some (Inr q)"
    and sv: "server s = ServeReturned" and s': "s' = s\<lparr>pipe := q, server := AtDoneSend\<rparr>"
    by (auto split: if_splits option.splits sum.splits)
  from step_Close_closes [OF q] assms(1) sv s' show ?thesis
    by (simp add: shutdown_inv_def)
next
  case Handshake
  with assms show ?thesis
    by (auto simp: shutdown_inv_def split: if_splits)
next
  case StopReturns
  with assms show ?thesis
    by (auto simp: shutdown_inv_def split: if_splits)
next
  case CallGetHarLog
  with assms show ?thesis
    by (auto simp: shutdown_inv_def split: if_splits)
next
  case EvalCondition
  with assms show ?thesis
    by (auto simp: shutdown_inv_def split: if_splits)
next
  case Encode
  with assms show ?thesis
    by (auto simp: shutdown_inv_def split: if_splits)
next
  case Clear
  with assms show ?thesis
    by (auto simp: shutdown_inv_def ClearEntries_def split: if_splits)
qed

text \<open>
  What the handshake does keep, in every interleaving: the capture channel is closed
  only by the serving task after \<^verbatim>\<open>http.Serve\<close> has returned, and \<^verbatim>\<open>Stop\<close> is
  past its receive only when the serving task has closed the channel and ended.
\<close>

lemma close_follows_serve:
  "shutdown_inv s \<Longrightarrow> sys_run mk evs s = Some (Inr s') \<Longrightarrow> shutdown_inv s'"
proof (induction evs arbitrary: s)
  case Nil
  then show ?case by simp
next
  case (Cons e evs)
  from Cons.prems(2) obtain s1 where s1: "sys_step mk e s = Some (Inr s1)"
    and r: "sys_run mk evs s1 = Some (Inr s')"
    by (auto split: option.splits sum.splits)
  from sys_step_inv [OF Cons.prems(1) s1] have "shutdown_inv s1" .
  from Cons.IH [OF this r] show ?case .
qed

text \<open>
  C1, at a concrete schedule. A transaction is on the wire when \<^verbatim>\<open>Stop\<close> is
  called. The listener is closed, \<^verbatim>\<open>http.Serve\<close> returns, the serving task closes
  the capture channel, the consumer sees it closed and leaves its loop, the handshake
  on \<^verbatim>\<open>isDone\<close> completes and \<^verbatim>\<open>Stop\<close> returns. The round trip then ends and
  the interceptor, in its connection goroutine, reaches the send of line 117: it panics
  on the closed channel.
\<close>

theorem publish_after_Stop_panics:
  "\<exists>s. sys_run sample_mk
          [CallStop, ServeReturns, CloseEntryChannel, Pipeline Receive, Handshake, StopReturns]
          (started sample_listener) = Some (Inr s)
       \<and> stopper s = StopReturned \<and> server s = ServerExited
       \<and> consumer (pipe s) = Finished \<and> closed (entryChannel (inst (pipe s)))
       \<and> sys_step sample_mk (Pipeline (Publish published_tx)) s = Some (Inl SendOnClosedChannel)"
  by (simp add: started_def sample_listener_def new_pipeline_def NewHarProxy_def
      NewHarProxyWithPort_def make_chan_def close_listener_def listener_closed_def Let_def)

text \<open>
  Two calls of \<^verbatim>\<open>getHarLog\<close> in a row with nothing else running, on an instance
  the drain condition finds idle: the first reply is the log, the second has no entry.
\<close>

lemma read_twice_undisturbed:
  assumes "reader s = NotReading" and "\<not> busy (observe (inst (pipe s)))"
  shows "\<exists>s'. sys_run mk
            [CallGetHarLog, EvalCondition, Encode, Clear,
             CallGetHarLog, EvalCondition, Encode, Clear] s = Some (Inr s')
          \<and> replies s' = replies s @ [HarLog (inst (pipe s)), HarLog (ClearEntries (inst (pipe s)))]
          \<and> Entries (HarLog (ClearEntries (inst (pipe s)))) = []"
  using assms
  by (simp add: observe_def ClearEntries_def makeNewEntries_def)

text \<open>
  C6, at a concrete schedule. One transaction is forwarded and its send completes at
  the consumer's receive. A first call of \<^verbatim>\<open>getHarLog\<close> finds the counter at zero,
  replies with an empty log and clears it. The consumer and the transform then finish
  their work on that transaction. A second call follows, with no transaction forwarded
  since the first: its reply has one entry.
\<close>

theorem second_read_not_empty:
  "\<exists>s. sys_run sample_mk
          [Pipeline (Publish published_tx), Pipeline Receive,
           CallGetHarLog, EvalCondition, Encode, Clear,
           Pipeline IncrementLoad, Pipeline IncrementStore, Pipeline Dispatch,
           Pipeline (AddEntry 0), Pipeline (DecrementLoad 0), Pipeline (DecrementStore 0),
           CallGetHarLog, EvalCondition, Encode, Clear]
          (started sample_listener) = Some (Inr s)
       \<and> published (pipe s) = 1
       \<and> replies s = [\<lparr>Entries = []\<rparr>, \<lparr>Entries = [sample_mk published_tx]\<rparr>]"
  by (simp add: started_def sample_listener_def new_pipeline_def NewHarProxy_def
      NewHarProxyWithPort_def make_chan_def Let_def busy_def observe_def len_chan_def
      newHarLog_def makeNewEntries_def addEntry_def ClearEntries_def)

end
